theory Spec2Isabelle
  imports Main
begin

text \<open>
  The job queue of the file processing service (jobQueue.js): the line parser, the
  field validator, the ingestion pipeline \<open>processFileContent\<close> with its batches
  and its error report, and the dispatch loop \<open>processQueue\<close> with \<open>processJob\<close>.
  The definitions follow the source; each theorem carries the number of the claim of
  the specification that it settles.
\<close>

section \<open>Strings\<close>

text \<open>
  A JavaScript string is a sequence of code units. The model writes it as a \<open>string\<close>:
  the code units U+0000 to U+00FF, one \<open>char\<close> each, so that \<open>length\<close>,
  \<open>substring\<close> and indexing count what the source counts.
\<close>

type_synonym jsstring = string

text \<open>
  \<open>String.prototype.trim\<close> and the regular expression class \<open>\s\<close> remove and match
  the same characters: WhiteSpace and LineTerminator of ECMAScript. In the range of the
  model these are TAB, LF, VT, FF, CR, SPACE and NO-BREAK SPACE.
\<close>

definition isWhiteSpace :: "char \<Rightarrow> bool" where
  "isWhiteSpace c =
     (c = CHR 0x09 \<or> c = CHR 0x0A \<or> c = CHR 0x0B \<or> c = CHR 0x0C \<or> c = CHR 0x0D
      \<or> c = CHR 0x20 \<or> c = CHR 0xA0)"

definition trim :: "jsstring \<Rightarrow> jsstring" where
  "trim s = rev (dropWhile isWhiteSpace (rev (dropWhile isWhiteSpace s)))"

text \<open>
  \<open>String.prototype.toLowerCase\<close> on the code units of the model: the ASCII capitals
  and the capitals of the Latin-1 supplement (U+00C0 to U+00DE without the
  multiplication sign U+00D7) move up by 32, every other code unit stays.
\<close>

definition toLowerCase_char :: "char \<Rightarrow> char" where
  "toLowerCase_char c =
     (let n = (of_char c :: nat)
      in if (65 \<le> n \<and> n \<le> 90) \<or> (192 \<le> n \<and> n \<le> 222 \<and> n \<noteq> 215)
         then char_of (n + 32) else c)"

definition toLowerCase :: "jsstring \<Rightarrow> jsstring" where
  "toLowerCase s = map toLowerCase_char s"

text \<open>
  The value of a character as a digit, as \<open>parseInt\<close> reads it: \<open>0\<close> to \<open>9\<close> are 0
  to 9, letters of either case are 10 to 35, and anything else is 36, a digit of no
  radix.
\<close>

definition digitValue :: "char \<Rightarrow> nat" where
  "digitValue c =
     (let n = (of_char c :: nat)
      in if 48 \<le> n \<and> n \<le> 57 then n - 48
         else if 97 \<le> n \<and> n \<le> 122 then n - 87
         else if 65 \<le> n \<and> n \<le> 90 then n - 55
         else 36)"

definition isRadixDigit :: "nat \<Rightarrow> char \<Rightarrow> bool" where
  "isRadixDigit R c = (digitValue c < R)"

definition digitsValue :: "nat \<Rightarrow> jsstring \<Rightarrow> nat" where
  "digitsValue R Z = foldl (\<lambda>acc c. acc * R + digitValue c) 0 Z"

text \<open>
  The global \<open>parseInt(string)\<close> of ECMAScript, called with no radix: leading white
  space is skipped, a sign is read, a prefix \<open>0x\<close> or \<open>0X\<close> selects radix 16 (radix
  10 otherwise), and the longest run of digits of that radix is the number; whatever
  follows is ignored. With no digit the result is NaN, here \<open>None\<close>. The result is the
  mathematical integer: JavaScript rounds it to the nearest double, which changes no
  comparison with 0 or 150, and no value between them; above \<open>2^53\<close> the number that
  \<open>InvalidAgeValue\<close> carries is the exact one, not the rounded one.
\<close>

definition parseInt :: "jsstring \<Rightarrow> int option" where
  "parseInt inputString =
     (let S0 = dropWhile isWhiteSpace inputString;
          sign = (if S0 \<noteq> [] \<and> hd S0 = CHR ''-'' then (-1::int) else 1);
          S1 = (if S0 \<noteq> [] \<and> (hd S0 = CHR ''+'' \<or> hd S0 = CHR ''-'') then tl S0 else S0);
          stripPrefix = (take 2 S1 = ''0x'' \<or> take 2 S1 = ''0X'');
          R = (if stripPrefix then 16 else 10);
          S2 = (if stripPrefix then drop 2 S1 else S1);
          Z = takeWhile (isRadixDigit R) S2
      in if Z = [] then None else Some (sign * int (digitsValue R Z)))"

section \<open>Line Parser\<close>

text \<open>
  \<open>parseCSVLine\<close> (jobQueue.js) walks the line once with three variables: the fields
  pushed so far, the field being built and the quoting flag. After the last character
  the field being built is pushed.
\<close>

fun parseCSVLine_loop :: "jsstring \<Rightarrow> jsstring list \<Rightarrow> jsstring \<Rightarrow> bool \<Rightarrow> jsstring list" where
  "parseCSVLine_loop [] fields currentField inQuotes = fields @ [currentField]"
| "parseCSVLine_loop (c # rest) fields currentField inQuotes =
     (if c = CHR 0x22 then parseCSVLine_loop rest fields currentField (\<not> inQuotes)
      else if c = CHR '','' \<and> \<not> inQuotes then parseCSVLine_loop rest (fields @ [currentField]) [] inQuotes
      else parseCSVLine_loop rest fields (currentField @ [c]) inQuotes)"

definition parseCSVLine :: "jsstring \<Rightarrow> jsstring list" where
  "parseCSVLine line = parseCSVLine_loop line [] [] False"

section \<open>Field Validator\<close>

text \<open>
  The test of \<open>/^[^\s@]+@[^\s@]+\.[^\s@]+$/\<close>. The class \<open>[^\s@]\<close> holds neither
  \<open>@\<close> nor white space, so a match has exactly one \<open>@\<close>: what stands before it is not
  empty, and what stands after it has a dot that is neither its first nor its last
  character; no character of the string is white space.
\<close>

definition nonSpaceAt :: "char \<Rightarrow> bool" where
  "nonSpaceAt c = (\<not> isWhiteSpace c \<and> c \<noteq> CHR ''@'')"

definition emailRegex_test :: "jsstring \<Rightarrow> bool" where
  "emailRegex_test s =
     (let localPart = takeWhile (\<lambda>c. c \<noteq> CHR ''@'') s;
          rest = dropWhile (\<lambda>c. c \<noteq> CHR ''@'') s;
          domainPart = tl rest
      in localPart \<noteq> [] \<and> list_all nonSpaceAt localPart \<and> rest \<noteq> []
         \<and> list_all nonSpaceAt domainPart \<and> CHR ''.'' \<in> set (butlast (tl domainPart)))"

text \<open>
  The persisted row (models/Record.js). \<open>processedAt\<close>, the time of the run, is left
  out: nothing below reads it.
\<close>

record RecordDoc =
  name :: jsstring
  email :: jsstring
  age :: "int option"
  department :: "jsstring option"
  uploadedFileId :: jsstring

text \<open>
  The five counters of \<open>errorCategories\<close>. A counter is a \<open>nat\<close>: the numbers of
  JavaScript count exactly up to \<open>2^53\<close>.
\<close>

record ErrorCategories =
  missingFields :: nat
  invalidEmail :: nat
  invalidAge :: nat
  malformedLine :: nat
  other :: nat

text \<open>
  What the \<open>try\<close> block throws, one constructor for each message:
  \<^item> \<open>InsufficientFields\<close>: "Insufficient fields (need at least name and email)";
  \<^item> \<open>NameRequired\<close>: "Name is required";
  \<^item> \<open>EmailRequired\<close>: "Email is required";
  \<^item> \<open>InvalidEmailFormat email\<close>: "Invalid email format: " and the email field;
  \<^item> \<open>InvalidAgeFormat age\<close>: "Invalid age format: " and the quoted age field, " is not a number";
  \<^item> \<open>InvalidAgeValue n\<close>: "Invalid age value: " and the number, " (must be 0-150)";
  \<^item> \<open>InsertRejected m\<close>: the error of a rejected \<open>Record.insertMany\<close>, with message \<open>m\<close>.
\<close>

datatype lineError =
    InsufficientFields
  | NameRequired
  | EmailRequired
  | InvalidEmailFormat jsstring
  | InvalidAgeFormat jsstring
  | InvalidAgeValue int
  | InsertRejected jsstring

text \<open>
  Array destructuring reads a field that may be missing; \<open>undefined\<close> is \<open>None\<close>.
  \<open>truthy\<close> is the test of \<open>x && ...\<close> and \<open>x ? ... : ...\<close> on such a value: a
  string is falsy when it is missing or empty.
\<close>

definition field_at :: "jsstring list \<Rightarrow> nat \<Rightarrow> jsstring option" where
  "field_at flds i = (if i < length flds then Some (flds ! i) else None)"

definition truthy :: "jsstring option \<Rightarrow> bool" where
  "truthy x = (case x of None \<Rightarrow> False | Some s \<Rightarrow> s \<noteq> [])"

text \<open>
  The checks of the \<open>try\<close> block of \<open>processFileContent\<close>, from the field count to the
  record it builds. Each check that fails counts its category before it throws, so a
  failure is the thrown error with the counters as they then stand.
\<close>

definition validateFields ::
  "ErrorCategories \<Rightarrow> jsstring \<Rightarrow> jsstring list \<Rightarrow> (lineError \<times> ErrorCategories) + RecordDoc" where
  "validateFields ec fileId flds =
     (if length flds < 2
      then Inl (InsufficientFields, ec\<lparr>malformedLine := malformedLine ec + 1\<rparr>)
      else
        let name = flds ! 0; email = flds ! 1;
            age = field_at flds 2; department = field_at flds 3
        in if name = [] \<or> trim name = []
           then Inl (NameRequired, ec\<lparr>missingFields := missingFields ec + 1\<rparr>)
           else if email = [] \<or> trim email = []
           then Inl (EmailRequired, ec\<lparr>missingFields := missingFields ec + 1\<rparr>)
           else if \<not> emailRegex_test (trim email)
           then Inl (InvalidEmailFormat email, ec\<lparr>invalidEmail := invalidEmail ec + 1\<rparr>)
           else
             let record = \<lparr>name = trim name, email = toLowerCase (trim email), age = None,
                   department = (if truthy department then Some (trim (the department)) else None),
                   uploadedFileId = fileId\<rparr>
             in if truthy age \<and> trim (the age) \<noteq> []
                then (case parseInt (trim (the age)) of
                        None \<Rightarrow> Inl (InvalidAgeFormat (the age), ec\<lparr>invalidAge := invalidAge ec + 1\<rparr>)
                      | Some parsedAge \<Rightarrow>
                          if parsedAge < 0 \<or> parsedAge > 150
                          then Inl (InvalidAgeValue parsedAge, ec\<lparr>invalidAge := invalidAge ec + 1\<rparr>)
                          else Inr (record\<lparr>age := Some parsedAge\<rparr>))
                else Inr record)"

section \<open>Collaborators\<close>

text \<open>
  The pipeline and the dispatch loop call three collaborators that can fail: the record
  store (\<open>Record.insertMany\<close>), the object store (\<open>downloadFromS3\<close>) and the job store
  (\<open>job.save\<close>). The model takes what they answer as an environment:
  \<^item> \<open>insertMany_outcome env k docs\<close> is the answer to the \<open>k\<close>-th call of
    \<open>insertMany\<close> (counted from 0 over the whole process), made with \<open>docs\<close>:
    \<open>None\<close> acknowledges, \<open>Some m\<close> rejects with an error of message \<open>m\<close>;
  \<^item> \<open>downloadFromS3_outcome env fileName\<close> is the sequence of lines that
    \<open>readline\<close> yields from the stored object, or \<open>Inl m\<close> when the lookup rejects;
  \<^item> \<open>save_outcome env k\<close> is the answer to the \<open>k\<close>-th call of \<open>job.save\<close>.

  A stream is the list of the lines it yields; a stream that breaks while it is read
  is outside the model. What a rejected \<open>insertMany\<close> has stored is not followed:
  the pipeline never reads the records back.
\<close>

record env =
  insertMany_outcome :: "nat \<Rightarrow> RecordDoc list \<Rightarrow> jsstring option"
  downloadFromS3_outcome :: "jsstring \<Rightarrow> jsstring + jsstring list"
  save_outcome :: "nat \<Rightarrow> jsstring option"

section \<open>Ingestion Pipeline\<close>

text \<open>
  An entry of \<open>errors\<close>: \<open>{line, error, data}\<close>. The field \<open>error\<close> holds the message
  of the thrown error.
\<close>

record ErrorSample =
  line :: nat
  errorMessage :: lineError
  data :: jsstring

text \<open>
  The object \<open>processFileContent\<close> returns. \<open>successRate\<close> and \<open>summary\<close> are left
  out: they are computed from the other fields in floating point and as text.
\<close>

record Result =
  totalLines :: nat
  successfulInserts :: nat
  failedLines :: nat
  errorCategories :: ErrorCategories
  errors :: "ErrorSample list"

text \<open>
  The variables of \<open>processFileContent\<close>: the five it returns, the batch, the header
  flag, and the number of \<open>insertMany\<close> calls made so far.
\<close>

record locals = Result +
  batch :: "RecordDoc list"
  isFirstLine :: bool
  insertCalls :: nat

definition BATCH_SIZE :: nat where
  "BATCH_SIZE = 100"

definition initialLocals :: "nat \<Rightarrow> locals" where
  "initialLocals calls =
     \<lparr>totalLines = 0, successfulInserts = 0, failedLines = 0,
      errorCategories = \<lparr>missingFields = 0, invalidEmail = 0, invalidAge = 0, malformedLine = 0, other = 0\<rparr>,
      errors = [], batch = [], isFirstLine = True, insertCalls = calls\<rparr>"

text \<open>
  The \<open>try\<close> block of one counted line. \<open>Inl (e, st)\<close> is a throw of \<open>e\<close> with the
  variables as the block left them: a rejected \<open>insertMany\<close> throws after the record
  was pushed and before the batch is cleared.
\<close>

definition tryBlock :: "env \<Rightarrow> jsstring \<Rightarrow> locals \<Rightarrow> jsstring \<Rightarrow> (lineError \<times> locals) + locals" where
  "tryBlock env fileId st trimmedLine =
     (case validateFields (errorCategories st) fileId (parseCSVLine trimmedLine) of
        Inl (e, ec) \<Rightarrow> Inl (e, st\<lparr>errorCategories := ec\<rparr>)
      | Inr record \<Rightarrow>
          let st1 = st\<lparr>batch := batch st @ [record]\<rparr>
          in if length (batch st1) \<ge> BATCH_SIZE
             then (case insertMany_outcome env (insertCalls st1) (batch st1) of
                     Some m \<Rightarrow> Inl (InsertRejected m, st1\<lparr>insertCalls := Suc (insertCalls st1)\<rparr>)
                   | None \<Rightarrow>
                       Inr (st1\<lparr>insertCalls := Suc (insertCalls st1),
                                successfulInserts := successfulInserts st1 + length (batch st1),
                                batch := []\<rparr>))
             else Inr st1)"

text \<open>The \<open>catch\<close> block of one counted line.\<close>

definition catchBlock :: "locals \<Rightarrow> jsstring \<Rightarrow> lineError \<Rightarrow> locals" where
  "catchBlock st trimmedLine e =
     (let st1 = st\<lparr>failedLines := failedLines st + 1\<rparr>;
          ec = errorCategories st1;
          st2 = (if missingFields ec = 0 \<and> invalidEmail ec = 0 \<and> invalidAge ec = 0 \<and> malformedLine ec = 0
                 then st1\<lparr>errorCategories := ec\<lparr>other := other ec + 1\<rparr>\<rparr> else st1)
      in if length (errors st2) < 50
         then st2\<lparr>errors := errors st2 @
                [\<lparr>line = totalLines st2 + 1, errorMessage = e, data = take 100 trimmedLine\<rparr>]\<rparr>
         else st2)"

text \<open>The body of the \<open>for await\<close> loop, run on one line.\<close>

definition processLine :: "env \<Rightarrow> jsstring \<Rightarrow> locals \<Rightarrow> jsstring \<Rightarrow> locals" where
  "processLine env fileId st ln =
     (if isFirstLine st then st\<lparr>isFirstLine := False\<rparr>
      else
        let trimmedLine = trim ln
        in if trimmedLine = [] \<or> trimmedLine = '',,,'' then st
           else
             let st1 = st\<lparr>totalLines := totalLines st + 1\<rparr>
             in (case tryBlock env fileId st1 trimmedLine of
                   Inr st2 \<Rightarrow> st2
                 | Inl (e, st2) \<Rightarrow> catchBlock st2 trimmedLine e))"

definition makeResult :: "locals \<Rightarrow> Result" where
  "makeResult st =
     \<lparr>totalLines = totalLines st, successfulInserts = successfulInserts st,
      failedLines = failedLines st, errorCategories = errorCategories st,
      errors = take 10 (errors st)\<rparr>"

text \<open>
  \<open>processFileContent\<close>: the loop over the lines, the flush of what is left in the
  batch, and the result. The flush stands outside every \<open>try\<close>: when it is rejected
  the function throws, here \<open>Inl m\<close>. The second component is the number of
  \<open>insertMany\<close> calls made when the function ends; \<open>calls\<close> is that number when it
  starts.
\<close>

definition processFileContent ::
  "env \<Rightarrow> nat \<Rightarrow> jsstring list \<Rightarrow> jsstring \<Rightarrow> (jsstring + Result) \<times> nat" where
  "processFileContent env calls fileStream fileId =
     (let st = foldl (processLine env fileId) (initialLocals calls) fileStream
      in if length (batch st) > 0
         then (case insertMany_outcome env (insertCalls st) (batch st) of
                 Some m \<Rightarrow> (Inl m, Suc (insertCalls st))
               | None \<Rightarrow>
                   (Inr (makeResult (st\<lparr>successfulInserts := successfulInserts st + length (batch st)\<rparr>)),
                    Suc (insertCalls st)))
         else (Inr (makeResult st), insertCalls st))"

section \<open>Job Dispatch Loop\<close>

datatype status = Pending | Processing | Completed | Failed

text \<open>
  A job document (models/Job.js) with the fields the queue reads and writes. The time
  stamps are left out. \<open>result\<close> and \<open>error\<close> are \<open>None\<close> until they are assigned.
\<close>

record Job =
  jobId :: jsstring
  fileId :: jsstring
  fileName :: jsstring
  status :: status
  result :: "Result option"
  error :: "jsstring option"

text \<open>
  What the queue changes: the job collection in the order of creation (a document is
  known by its position), the flag \<open>isProcessing\<close>, and the numbers of \<open>save\<close> and
  \<open>insertMany\<close> calls made so far, which select the answers of the environment.
\<close>

record world =
  jobs :: "Job list"
  isProcessing :: bool
  saveCalls :: nat
  insertManyCalls :: nat

text \<open>
  \<open>job.save()\<close> of a document that is in the collection: acknowledged, the stored
  document becomes the one in memory; rejected (\<open>Some m\<close>), the collection stays.
\<close>

definition save :: "env \<Rightarrow> nat \<Rightarrow> Job \<Rightarrow> world \<Rightarrow> jsstring option \<times> world" where
  "save env idx job w =
     (case save_outcome env (saveCalls w) of
        Some m \<Rightarrow> (Some m, w\<lparr>saveCalls := Suc (saveCalls w)\<rparr>)
      | None \<Rightarrow> (None, w\<lparr>jobs := (jobs w)[idx := job], saveCalls := Suc (saveCalls w)\<rparr>))"

text \<open>
  The \<open>try\<close> block of \<open>processJob\<close>. The first component is \<open>Some m\<close> when the block
  throws an error of message \<open>m\<close>; the second is the document in memory as the block
  left it.
\<close>

definition processJob_try :: "env \<Rightarrow> nat \<Rightarrow> Job \<Rightarrow> world \<Rightarrow> jsstring option \<times> Job \<times> world" where
  "processJob_try env idx job w =
     (let job1 = job\<lparr>status := Processing\<rparr>
      in case save env idx job1 w of
           (Some m, w1) \<Rightarrow> (Some m, job1, w1)
         | (None, w1) \<Rightarrow>
             (case downloadFromS3_outcome env (fileName job1) of
                Inl m \<Rightarrow> (Some m, job1, w1)
              | Inr fileContent \<Rightarrow>
                  (case processFileContent env (insertManyCalls w1) fileContent (fileId job1) of
                     (Inl m, calls) \<Rightarrow> (Some m, job1, w1\<lparr>insertManyCalls := calls\<rparr>)
                   | (Inr res, calls) \<Rightarrow>
                       let job2 = job1\<lparr>status := Completed, result := Some res\<rparr>
                       in (case save env idx job2 (w1\<lparr>insertManyCalls := calls\<rparr>) of
                             (Some m, w2) \<Rightarrow> (Some m, job2, w2)
                           | (None, w2) \<Rightarrow> (None, job2, w2)))))"

text \<open>
  \<open>processJob\<close>: the \<open>try\<close> block, and on a throw the \<open>catch\<close> block, whose own
  \<open>save\<close> stands in no \<open>try\<close>: when it is rejected \<open>processJob\<close> throws (\<open>Some m\<close>).
\<close>

definition processJob :: "env \<Rightarrow> nat \<Rightarrow> Job \<Rightarrow> world \<Rightarrow> jsstring option \<times> Job \<times> world" where
  "processJob env idx job w =
     (case processJob_try env idx job w of
        (None, job1, w1) \<Rightarrow> (None, job1, w1)
      | (Some m, job1, w1) \<Rightarrow>
          let job2 = job1\<lparr>status := Failed, error := Some m\<rparr>
          in (case save env idx job2 w1 of (r, w2) \<Rightarrow> (r, job2, w2)))"

text \<open>
  \<open>Job.findOne({status: 'pending'}).sort({createdAt: 1})\<close>: the position of the
  oldest pending job.
\<close>

fun findOnePending :: "Job list \<Rightarrow> nat option" where
  "findOnePending [] = None"
| "findOnePending (j # js) =
     (if status j = Pending then Some 0 else map_option Suc (findOnePending js))"

definition pendingCount :: "world \<Rightarrow> nat" where
  "pendingCount w = length (filter (\<lambda>j. status j = Pending) (jobs w))"

text \<open>
  A job that \<open>processJob\<close> ran without throwing is stored as completed or failed, so
  one pending job less is left. This is what makes the loop of \<open>processQueue\<close> end.
\<close>

lemma findOnePending_Some:
  "findOnePending js = Some i \<Longrightarrow> i < length js \<and> status (js ! i) = Pending"
  by (induction js arbitrary: i) (auto split: if_splits)

lemma findOnePending_None:
  "findOnePending js = None \<Longrightarrow> filter (\<lambda>j. status j = Pending) js = []"
  by (induction js) (auto split: if_splits)

lemma filter_update_less:
  "i < length xs \<Longrightarrow> P (xs ! i) \<Longrightarrow> \<not> P y \<Longrightarrow> length (filter P (xs[i := y])) < length (filter P xs)"
proof (induction xs arbitrary: i)
  case Nil
  then show ?case by simp
next
  case (Cons x xs)
  then show ?case by (cases i) auto
qed

lemma save_jobs:
  "save env idx job w = (r, w1) \<Longrightarrow> jobs w1 = (if r = None then (jobs w)[idx := job] else jobs w)"
  by (auto simp: save_def split: option.splits)

lemma processJob_try_jobs:
  "processJob_try env idx job w = (r, job1, w1) \<Longrightarrow>
     (jobs w1 = jobs w \<or> (\<exists>j. jobs w1 = (jobs w)[idx := j]))
     \<and> (r = None \<longrightarrow> jobs w1 = (jobs w)[idx := job1] \<and> status job1 = Completed)"
  by (auto simp: processJob_try_def Let_def split: option.splits sum.splits prod.splits dest!: save_jobs)

lemma processJob_returns:
  assumes "processJob env idx job w = (None, job1, w1)"
  shows "jobs w1 = (jobs w)[idx := job1] \<and> (status job1 = Completed \<or> status job1 = Failed)"
proof (cases "processJob_try env idx job w")
  case (fields r j2 w2)
  note t = processJob_try_jobs[OF fields]
  show ?thesis
  proof (cases r)
    case None
    with assms fields t show ?thesis by (simp add: processJob_def)
  next
    case (Some m)
    with assms fields obtain w3
      where s: "save env idx (j2\<lparr>status := Failed, error := Some m\<rparr>) w2 = (None, w3)"
        and e: "job1 = j2\<lparr>status := Failed, error := Some m\<rparr>" "w1 = w3"
      by (auto simp: processJob_def Let_def split: prod.splits)
    from save_jobs[OF s] t e show ?thesis by auto
  qed
qed

lemma processJob_pendingCount:
  assumes "findOnePending (jobs w) = Some idx"
    and "processJob env idx (jobs w ! idx) w = (None, job1, w1)"
  shows "pendingCount w1 < pendingCount w"
proof -
  from findOnePending_Some[OF assms(1)]
  have i: "idx < length (jobs w)" "status (jobs w ! idx) = Pending" by auto
  from processJob_returns[OF assms(2)]
  have j: "jobs w1 = (jobs w)[idx := job1]" "status job1 \<noteq> Pending" by auto
  show ?thesis unfolding pendingCount_def j(1)
    by (rule filter_update_less) (use i j in auto)
qed

text \<open>
  The loop of \<open>processQueue\<close>: take the oldest pending job and run it, until none is
  left; then clear the flag. \<open>await this.processJob(job)\<close> stands in no \<open>try\<close>, so a
  throw of \<open>processJob\<close> ends the loop and rejects the promise of \<open>processQueue\<close>
  (\<open>Some m\<close>), with the flag as it is.
\<close>

function processQueue_loop :: "env \<Rightarrow> world \<Rightarrow> jsstring option \<times> world" where
  "processQueue_loop env w =
     (case findOnePending (jobs w) of
        None \<Rightarrow> (None, w\<lparr>isProcessing := False\<rparr>)
      | Some idx \<Rightarrow>
          (case processJob env idx (jobs w ! idx) w of
             (Some m, job1, w1) \<Rightarrow> (Some m, w1)
           | (None, job1, w1) \<Rightarrow> processQueue_loop env w1))"
  by pat_completeness auto
termination
  by (relation "measure (\<lambda>(env, w). pendingCount w)")
     (auto intro: processJob_pendingCount[OF _ sym])

declare processQueue_loop.simps [simp del]

definition processQueue :: "env \<Rightarrow> world \<Rightarrow> jsstring option \<times> world" where
  "processQueue env w =
     (if isProcessing w then (None, w)
      else processQueue_loop env (w\<lparr>isProcessing := True\<rparr>))"

section \<open>Example inputs\<close>

text \<open>An environment where every collaborator answers well, and a small file.\<close>

definition sampleStream :: "jsstring list" where
  "sampleStream =
     [''name,email,age,department'',
      ''John Doe,john@company.com,30,Engineering'',
      ''Charlie Brown,charlie-no-at-sign,35,Marketing'',
      '''']"

definition ackEnv :: env where
  "ackEnv =
     \<lparr>insertMany_outcome = (\<lambda>k docs. None),
      downloadFromS3_outcome = (\<lambda>f. Inr sampleStream),
      save_outcome = (\<lambda>k. None)\<rparr>"

section \<open>The counts of a run\<close>

text \<open>
  While the loop runs, every counted line is in exactly one of three places: inserted,
  waiting in the batch, or failed. This holds as long as no \<open>insertMany\<close> is rejected.
\<close>

definition balanced :: "locals \<Rightarrow> bool" where
  "balanced st = (successfulInserts st + length (batch st) + failedLines st = totalLines st)"

lemma processLine_balanced:
  assumes "\<forall>k docs. insertMany_outcome env k docs = None" and "balanced st"
  shows "balanced (processLine env fid st ln)"
  using assms
  by (auto simp: balanced_def processLine_def tryBlock_def catchBlock_def Let_def
      split: sum.splits option.splits prod.splits)

lemma foldl_processLine_balanced:
  assumes "\<forall>k docs. insertMany_outcome env k docs = None" and "balanced st"
  shows "balanced (foldl (processLine env fid) st lns)"
  using assms(2)
  by (induction lns arbitrary: st) (simp_all add: processLine_balanced[OF assms(1)])

text \<open>
  C1. For every input stream, when every \<open>insertMany\<close> call is acknowledged,
  \<open>processFileContent\<close> returns a result, and in it the successful inserts and the
  failed lines add up to the total of lines.
\<close>

theorem C1_counts_add_up:
  assumes "\<forall>k docs. insertMany_outcome env k docs = None"
  shows "\<exists>r c. processFileContent env calls fileStream fid = (Inr r, c)
           \<and> successfulInserts r + failedLines r = totalLines r"
proof -
  let ?st = "foldl (processLine env fid) (initialLocals calls) fileStream"
  have "balanced (initialLocals calls)"
    by (simp add: balanced_def initialLocals_def)
  then have "balanced ?st"
    by (rule foldl_processLine_balanced[OF assms])
  then show ?thesis
    using assms by (auto simp: processFileContent_def Let_def makeResult_def balanced_def)
qed

theorem C1_counts_add_up_witness:
  "(\<forall>k docs. insertMany_outcome ackEnv k docs = None)
   \<and> (\<exists>r c. processFileContent ackEnv 0 sampleStream ''file-1'' = (Inr r, c)
          \<and> successfulInserts r + failedLines r = totalLines r)"
proof -
  have h: "\<forall>k docs. insertMany_outcome ackEnv k docs = None"
    by (simp add: ackEnv_def)
  from C1_counts_add_up[OF h] h show ?thesis by blast
qed

section \<open>Header and skipped lines\<close>

lemma tryBlock_isFirstLine:
  "tryBlock env fid st t = Inr st2 \<Longrightarrow> isFirstLine st2 = isFirstLine st"
  "tryBlock env fid st t = Inl (e, st2) \<Longrightarrow> isFirstLine st2 = isFirstLine st"
  by (auto simp: tryBlock_def Let_def split: sum.splits option.splits prod.splits if_splits)

lemma catchBlock_isFirstLine: "isFirstLine (catchBlock st t e) = isFirstLine st"
  by (simp add: catchBlock_def Let_def)

lemma processLine_not_first:
  "\<not> isFirstLine st \<Longrightarrow> \<not> isFirstLine (processLine env fid st ln)"
  by (auto simp: processLine_def Let_def catchBlock_isFirstLine
      split: sum.splits prod.splits dest: tryBlock_isFirstLine)

lemma foldl_processLine_not_first:
  "\<not> isFirstLine st \<Longrightarrow> \<not> isFirstLine (foldl (processLine env fid) st lns)"
  by (induction lns arbitrary: st) (simp_all add: processLine_not_first)

lemma processLine_header:
  "processLine env fid (initialLocals calls) h = (initialLocals calls)\<lparr>isFirstLine := False\<rparr>"
  by (simp add: processLine_def initialLocals_def)

lemma processLine_skip:
  "\<not> isFirstLine st \<Longrightarrow> trim ln = [] \<or> trim ln = '',,,'' \<Longrightarrow> processLine env fid st ln = st"
  by (auto simp: processLine_def Let_def)

lemma foldl_processLine_skip:
  assumes "trim ln = [] \<or> trim ln = '',,,''"
  shows "foldl (processLine env fid) (initialLocals calls) (h # before @ ln # after)
       = foldl (processLine env fid) (initialLocals calls) (h # before @ after)"
proof -
  let ?s = "foldl (processLine env fid) ((initialLocals calls)\<lparr>isFirstLine := False\<rparr>) before"
  have "\<not> isFirstLine ?s"
    by (rule foldl_processLine_not_first) simp
  then have "processLine env fid ?s ln = ?s"
    using assms by (rule processLine_skip)
  then show ?thesis
    by (simp add: processLine_header)
qed

text \<open>
  C6. The first line is dropped whatever it holds: the run does not depend on it, and
  a stream of one line gives the empty result. After it, a line whose trimmed form is
  empty or \<open>,,,\<close> leaves every variable of the loop as it was, so the run with the
  line and the run without it end the same: same counts, same categories, same samples,
  same calls of \<open>insertMany\<close>.
\<close>

theorem C6_header_and_skipped_lines:
  "processFileContent env calls (h # rest) fid = processFileContent env calls (h' # rest) fid
   \<and> processFileContent env calls [h] fid =
       (Inr \<lparr>totalLines = 0, successfulInserts = 0, failedLines = 0,
             errorCategories = \<lparr>missingFields = 0, invalidEmail = 0, invalidAge = 0,
                                malformedLine = 0, other = 0\<rparr>,
             errors = []\<rparr>, calls)
   \<and> (trim ln = [] \<or> trim ln = '',,,'' \<longrightarrow>
        processFileContent env calls (h # before @ ln # after) fid
          = processFileContent env calls (h # before @ after) fid)
   \<and> (\<not> isFirstLine st \<and> (trim ln = [] \<or> trim ln = '',,,'') \<longrightarrow> processLine env fid st ln = st)"
proof (intro conjI impI)
  show "processFileContent env calls (h # rest) fid = processFileContent env calls (h' # rest) fid"
    by (simp add: processFileContent_def processLine_header)
  show "processFileContent env calls [h] fid =
       (Inr \<lparr>totalLines = 0, successfulInserts = 0, failedLines = 0,
             errorCategories = \<lparr>missingFields = 0, invalidEmail = 0, invalidAge = 0,
                                malformedLine = 0, other = 0\<rparr>,
             errors = []\<rparr>, calls)"
  proof -
    have f: "foldl (processLine env fid) (initialLocals calls) [h]
               = (initialLocals calls)\<lparr>isFirstLine := False\<rparr>"
      by (simp add: processLine_header)
    show ?thesis
      unfolding processFileContent_def f by (simp add: initialLocals_def makeResult_def)
  qed
  show "processFileContent env calls (h # before @ ln # after) fid
          = processFileContent env calls (h # before @ after) fid"
    if "trim ln = [] \<or> trim ln = '',,,''"
    unfolding processFileContent_def foldl_processLine_skip[OF that] ..
  show "processLine env fid st ln = st"
    if "\<not> isFirstLine st \<and> (trim ln = [] \<or> trim ln = '',,,'')"
    using that by (simp add: processLine_skip)
qed

theorem C6_header_and_skipped_lines_witness:
  "trim ''  ,,, '' = '',,,''
   \<and> \<not> isFirstLine ((initialLocals 0)\<lparr>isFirstLine := False\<rparr>)
   \<and> processFileContent ackEnv 0
        (''name,email,age,department'' # [''John Doe,john@company.com,30,Engineering''] @ ''  ,,, '' # [''x''])
        ''file-1''
      = processFileContent ackEnv 0
        (''not a header at all'' # [''John Doe,john@company.com,30,Engineering''] @ [''x''])
        ''file-1''
   \<and> processLine ackEnv ''file-1'' ((initialLocals 0)\<lparr>isFirstLine := False\<rparr>) ''  ,,, ''
      = (initialLocals 0)\<lparr>isFirstLine := False\<rparr>"
proof -
  have t: "trim ''  ,,, '' = '',,,''"
    by (simp add: trim_def isWhiteSpace_def)
  have n: "\<not> isFirstLine ((initialLocals 0)\<lparr>isFirstLine := False\<rparr>)"
    by simp
  note a = C6_header_and_skipped_lines[of ackEnv 0 "''name,email,age,department''"
      "[''John Doe,john@company.com,30,Engineering''] @ [''x'']" "''file-1''" "''not a header at all''"
      "''  ,,, ''" "[''John Doe,john@company.com,30,Engineering'']" "[''x'']"
      "(initialLocals 0)\<lparr>isFirstLine := False\<rparr>"]
  from a t have 1: "processFileContent ackEnv 0
        (''name,email,age,department'' # [''John Doe,john@company.com,30,Engineering''] @ ''  ,,, '' # [''x''])
        ''file-1''
      = processFileContent ackEnv 0
        (''name,email,age,department'' # [''John Doe,john@company.com,30,Engineering''] @ [''x''])
        ''file-1''"
    by blast
  from a have 2: "processFileContent ackEnv 0
        (''name,email,age,department'' # [''John Doe,john@company.com,30,Engineering''] @ [''x''])
        ''file-1''
      = processFileContent ackEnv 0
        (''not a header at all'' # [''John Doe,john@company.com,30,Engineering''] @ [''x''])
        ''file-1''"
    by blast
  from a t n have 3: "processLine ackEnv ''file-1'' ((initialLocals 0)\<lparr>isFirstLine := False\<rparr>) ''  ,,, ''
      = (initialLocals 0)\<lparr>isFirstLine := False\<rparr>"
    by blast
  from t n 1 2 3 show ?thesis by (simp only: simp_thms)
qed

section \<open>Error samples\<close>

lemma tryBlock_errors:
  "tryBlock env fid st t = Inr st2 \<Longrightarrow> errors st2 = errors st \<and> totalLines st2 = totalLines st"
  "tryBlock env fid st t = Inl (e, st2) \<Longrightarrow> errors st2 = errors st \<and> totalLines st2 = totalLines st"
  by (auto simp: tryBlock_def Let_def split: sum.splits option.splits prod.splits if_splits)

lemma catchBlock_errors:
  "errors (catchBlock st t e) =
     (if length (errors st) < 50
      then errors st @ [\<lparr>line = totalLines st + 1, errorMessage = e, data = take 100 t\<rparr>]
      else errors st)"
  "totalLines (catchBlock st t e) = totalLines st"
  by (simp_all add: catchBlock_def Let_def)

lemma processLine_errors_bounded:
  "length (errors st) \<le> 50 \<Longrightarrow> length (errors (processLine env fid st ln)) \<le> 50"
  by (auto simp: processLine_def Let_def catchBlock_errors
      split: sum.splits prod.splits dest: tryBlock_errors)

lemma foldl_processLine_errors_bounded:
  "length (errors st) \<le> 50 \<Longrightarrow> length (errors (foldl (processLine env fid) st lns)) \<le> 50"
  by (induction lns arbitrary: st) (simp_all add: processLine_errors_bounded)

lemma processFileContent_errors:
  "processFileContent env calls fileStream fid = (Inr r, c) \<Longrightarrow>
     errors r = take 10 (errors (foldl (processLine env fid) (initialLocals calls) fileStream))"
  by (auto simp: processFileContent_def Let_def makeResult_def split: if_splits option.splits)

text \<open>
  C7. The loop keeps at most 50 samples, and the result holds the first 10 of them, so
  at most 10. A counted line whose \<open>try\<close> block throws \<open>e\<close> appends, while fewer than
  50 samples are kept, the sample of line number \<open>totalLines + 1\<close> (the line has been
  counted), of message \<open>e\<close> and of the first 100 characters of the trimmed line; a
  counted line that does not throw appends nothing.
\<close>

theorem C7_error_samples:
  "length (errors (foldl (processLine env fid) (initialLocals calls) fileStream)) \<le> 50
   \<and> (processFileContent env calls fileStream fid = (Inr r, c) \<longrightarrow>
        length (errors r) \<le> 10
        \<and> errors r = take 10 (errors (foldl (processLine env fid) (initialLocals calls) fileStream)))
   \<and> (\<not> isFirstLine st \<and> trim ln \<noteq> [] \<and> trim ln \<noteq> '',,,''
        \<and> tryBlock env fid (st\<lparr>totalLines := totalLines st + 1\<rparr>) (trim ln) = Inl (e, st2) \<longrightarrow>
        totalLines (processLine env fid st ln) = totalLines st + 1
        \<and> errors (processLine env fid st ln) =
            (if length (errors st) < 50
             then errors st @ [\<lparr>line = totalLines (processLine env fid st ln) + 1, errorMessage = e,
                                 data = take 100 (trim ln)\<rparr>]
             else errors st))
   \<and> (\<not> isFirstLine st \<and> trim ln \<noteq> [] \<and> trim ln \<noteq> '',,,''
        \<and> tryBlock env fid (st\<lparr>totalLines := totalLines st + 1\<rparr>) (trim ln) = Inr st3 \<longrightarrow>
        errors (processLine env fid st ln) = errors st)"
proof (intro conjI impI)
  show "length (errors (foldl (processLine env fid) (initialLocals calls) fileStream)) \<le> 50"
    by (rule foldl_processLine_errors_bounded) (simp add: initialLocals_def)
  show "errors r = take 10 (errors (foldl (processLine env fid) (initialLocals calls) fileStream))"
    if "processFileContent env calls fileStream fid = (Inr r, c)"
    using that by (rule processFileContent_errors)
  then show "length (errors r) \<le> 10"
    if "processFileContent env calls fileStream fid = (Inr r, c)"
    using that by simp
next
  assume a: "\<not> isFirstLine st \<and> trim ln \<noteq> [] \<and> trim ln \<noteq> '',,,''
        \<and> tryBlock env fid (st\<lparr>totalLines := totalLines st + 1\<rparr>) (trim ln) = Inl (e, st2)"
  then have p: "processLine env fid st ln = catchBlock st2 (trim ln) e"
    by (simp add: processLine_def Let_def)
  from a tryBlock_errors(2)[of env fid "st\<lparr>totalLines := totalLines st + 1\<rparr>" "trim ln" e st2]
  have s: "errors st2 = errors st" "totalLines st2 = totalLines st + 1" by auto
  show "totalLines (processLine env fid st ln) = totalLines st + 1"
    by (simp add: p catchBlock_errors s)
  show "errors (processLine env fid st ln) =
            (if length (errors st) < 50
             then errors st @ [\<lparr>line = totalLines (processLine env fid st ln) + 1, errorMessage = e,
                                 data = take 100 (trim ln)\<rparr>]
             else errors st)"
    by (simp add: p catchBlock_errors s)
next
  assume a: "\<not> isFirstLine st \<and> trim ln \<noteq> [] \<and> trim ln \<noteq> '',,,''
        \<and> tryBlock env fid (st\<lparr>totalLines := totalLines st + 1\<rparr>) (trim ln) = Inr st3"
  then have p: "processLine env fid st ln = st3"
    by (simp add: processLine_def Let_def)
  from a tryBlock_errors(1)[of env fid "st\<lparr>totalLines := totalLines st + 1\<rparr>" "trim ln" st3]
  show "errors (processLine env fid st ln) = errors st"
    by (simp add: p)
qed

definition afterHeader :: locals where
  "afterHeader = (initialLocals 0)\<lparr>isFirstLine := False\<rparr>"

definition sampleResult :: Result where
  "sampleResult =
     \<lparr>totalLines = 2, successfulInserts = 1, failedLines = 1,
      errorCategories = \<lparr>missingFields = 0, invalidEmail = 1, invalidAge = 0, malformedLine = 0, other = 0\<rparr>,
      errors = [\<lparr>line = 3, errorMessage = InvalidEmailFormat ''charlie-no-at-sign'',
                 data = ''Charlie Brown,charlie-no-at-sign,35,Marketing''\<rparr>]\<rparr>"

theorem C7_error_samples_witness:
  "processFileContent ackEnv 0 sampleStream ''file-1'' = (Inr sampleResult, 1)
   \<and> length (errors sampleResult) \<le> 10
   \<and> \<not> isFirstLine afterHeader
   \<and> trim '' Charlie Brown,charlie-no-at-sign,35,Marketing'' \<noteq> []
   \<and> trim '' Charlie Brown,charlie-no-at-sign,35,Marketing'' \<noteq> '',,,''
   \<and> tryBlock ackEnv ''file-1'' (afterHeader\<lparr>totalLines := totalLines afterHeader + 1\<rparr>)
        (trim '' Charlie Brown,charlie-no-at-sign,35,Marketing'')
      = Inl (InvalidEmailFormat ''charlie-no-at-sign'',
             afterHeader\<lparr>totalLines := 1,
               errorCategories := \<lparr>missingFields = 0, invalidEmail = 1, invalidAge = 0, malformedLine = 0, other = 0\<rparr>\<rparr>)
   \<and> errors (processLine ackEnv ''file-1'' afterHeader '' Charlie Brown,charlie-no-at-sign,35,Marketing'')
      = [\<lparr>line = 2, errorMessage = InvalidEmailFormat ''charlie-no-at-sign'',
           data = ''Charlie Brown,charlie-no-at-sign,35,Marketing''\<rparr>]"
proof -
  let ?ln = "'' Charlie Brown,charlie-no-at-sign,35,Marketing''"
  let ?st2 = "afterHeader\<lparr>totalLines := 1,
               errorCategories := \<lparr>missingFields = 0, invalidEmail = 1, invalidAge = 0, malformedLine = 0, other = 0\<rparr>\<rparr>"
  have r: "processFileContent ackEnv 0 sampleStream ''file-1'' = (Inr sampleResult, 1)"
    by code_simp
  have n: "\<not> isFirstLine afterHeader"
    by (simp add: afterHeader_def)
  have t: "trim ?ln = ''Charlie Brown,charlie-no-at-sign,35,Marketing''"
    by (simp add: trim_def isWhiteSpace_def)
  have b: "tryBlock ackEnv ''file-1'' (afterHeader\<lparr>totalLines := totalLines afterHeader + 1\<rparr>) (trim ?ln)
      = Inl (InvalidEmailFormat ''charlie-no-at-sign'', ?st2)"
    by code_simp
  have e: "errors afterHeader = []" "totalLines afterHeader = 0"
    by (simp_all add: afterHeader_def initialLocals_def)
  note a = C7_error_samples[of ackEnv "''file-1''" 0 sampleStream sampleResult 1 afterHeader ?ln
      "InvalidEmailFormat ''charlie-no-at-sign''" ?st2]
  from a r have 1: "length (errors sampleResult) \<le> 10"
    by blast
  from a n t b
  have 2: "totalLines (processLine ackEnv ''file-1'' afterHeader ?ln) = totalLines afterHeader + 1
        \<and> errors (processLine ackEnv ''file-1'' afterHeader ?ln) =
            (if length (errors afterHeader) < 50
             then errors afterHeader @ [\<lparr>line = totalLines (processLine ackEnv ''file-1'' afterHeader ?ln) + 1,
                    errorMessage = InvalidEmailFormat ''charlie-no-at-sign'', data = take 100 (trim ?ln)\<rparr>]
             else errors afterHeader)"
    by simp
  then have 3: "errors (processLine ackEnv ''file-1'' afterHeader ?ln)
      = [\<lparr>line = 2, errorMessage = InvalidEmailFormat ''charlie-no-at-sign'',
           data = ''Charlie Brown,charlie-no-at-sign,35,Marketing''\<rparr>]"
    by (simp add: e t)
  from r 1 n t b 3 show ?thesis by simp
qed

section \<open>The contract of the Line Parser\<close>

text \<open>
  The contract, in its own words: the line is cut at the commas that lie outside quoted
  spans, and a double quote always flips the quoting state. So a comma is a delimiter
  when the number of double quotes before it is even (\<open>delimitersFrom False\<close>; started
  inside a quoted span, when it is odd). \<open>pieces\<close> cuts the line at given positions,
  and the quotes themselves are no part of a field.
\<close>

definition quotesBefore :: "jsstring \<Rightarrow> nat \<Rightarrow> nat" where
  "quotesBefore ln i = length (filter (\<lambda>c. c = CHR 0x22) (take i ln))"

definition delimitersFrom :: "bool \<Rightarrow> jsstring \<Rightarrow> nat list" where
  "delimitersFrom q ln =
     filter (\<lambda>i. ln ! i = CHR '','' \<and> (odd (quotesBefore ln i) = q)) [0..<length ln]"

definition delimiters :: "jsstring \<Rightarrow> nat list" where
  "delimiters ln = delimitersFrom False ln"

fun pieces :: "nat \<Rightarrow> nat list \<Rightarrow> jsstring \<Rightarrow> jsstring list" where
  "pieces start [] ln = [drop start ln]"
| "pieces start (p # ps) ln = take (p - start) (drop start ln) # pieces (Suc p) ps ln"

definition stripQuotes :: "jsstring \<Rightarrow> jsstring" where
  "stripQuotes s = filter (\<lambda>c. c \<noteq> CHR 0x22) s"

definition splitOutsideQuotes :: "jsstring \<Rightarrow> jsstring list" where
  "splitOutsideQuotes ln = map stripQuotes (pieces 0 (delimiters ln) ln)"

lemma delimitersFrom_Cons:
  "delimitersFrom q (c # cs) =
     (if c = CHR '','' \<and> \<not> q then [0] else [])
     @ map Suc (delimitersFrom (if c = CHR 0x22 then \<not> q else q) cs)"
proof -
  have u: "[0..<length (c # cs)] = 0 # map Suc [0..<length cs]"
    by (simp add: upt_conv_Cons map_Suc_upt del: upt_Suc)
  show ?thesis
    unfolding delimitersFrom_def u
    by (auto simp: filter_map comp_def quotesBefore_def intro!: filter_cong)
qed

lemma pieces_shift: "pieces (Suc s) (map Suc ps) (c # cs) = pieces s ps cs"
  by (induction ps arbitrary: s) simp_all

lemma pieces_nonempty: "pieces s ps ln \<noteq> []"
  by (cases ps) simp_all

lemma length_pieces: "length (pieces s ps ln) = Suc (length ps)"
  by (induction ps arbitrary: s) simp_all

lemma pieces_Cons:
  "pieces 0 (map Suc ps) (c # cs) = (c # hd (pieces 0 ps cs)) # tl (pieces 0 ps cs)"
  by (cases ps) (simp_all add: pieces_shift)

lemma hd_tl_map: "xs \<noteq> [] \<Longrightarrow> f (hd xs) # tl (map f xs) = map f xs"
  by (cases xs) simp_all

text \<open>
  The loop of \<open>parseCSVLine\<close>, started anywhere: the fields pushed so far stay, the
  field being built goes on with the first piece of what is left, and the other pieces
  follow.
\<close>

lemma parseCSVLine_loop_split:
  "parseCSVLine_loop s fs cur q =
     fs @ (cur @ stripQuotes (hd (pieces 0 (delimitersFrom q s) s)))
          # map stripQuotes (tl (pieces 0 (delimitersFrom q s) s))"
proof (induction s arbitrary: fs cur q)
  case Nil
  show ?case by (simp add: delimitersFrom_def stripQuotes_def)
next
  case (Cons c cs)
  show ?case
    by (simp add: Cons.IH delimitersFrom_Cons pieces_Cons pieces_shift stripQuotes_def map_tl
        hd_tl_map pieces_nonempty)
qed

lemma parseCSVLine_split: "parseCSVLine ln = splitOutsideQuotes ln"
  by (simp add: parseCSVLine_def parseCSVLine_loop_split splitOutsideQuotes_def delimiters_def
      hd_tl_map pieces_nonempty map_tl)

text \<open>
  C8, as stated, fails where a line has quotes and no comma outside them: the one field
  is then the line without its quotes, not the whole line.
\<close>

theorem C8_counterexample:
  "delimiters [CHR 0x22, CHR ''a'', CHR '','', CHR ''b'', CHR 0x22] = []
   \<and> parseCSVLine [CHR 0x22, CHR ''a'', CHR '','', CHR ''b'', CHR 0x22] = [''a,b'']
   \<and> parseCSVLine [CHR 0x22, CHR ''a'', CHR '','', CHR ''b'', CHR 0x22]
       \<noteq> [[CHR 0x22, CHR ''a'', CHR '','', CHR ''b'', CHR 0x22]]"
  by (simp add: delimiters_def delimitersFrom_Cons parseCSVLine_def) (simp add: delimitersFrom_def)

text \<open>
  C8, amended. \<open>parseCSVLine\<close> cuts the line at the commas that have an even number of
  double quotes before them and drops the quotes; it returns one field more than there
  are such commas, so at least one; with no such comma the one field is the line
  without its quotes, which is the whole line when the line has no quote; and the
  quoted name with a comma is one field.
\<close>

theorem C8_parseCSVLine:
  "parseCSVLine ln = splitOutsideQuotes ln
   \<and> length (parseCSVLine ln) = Suc (length (delimiters ln))
   \<and> parseCSVLine ln \<noteq> []
   \<and> (delimiters ln = [] \<longrightarrow> parseCSVLine ln = [stripQuotes ln])
   \<and> (delimiters ln = [] \<and> CHR 0x22 \<notin> set ln \<longrightarrow> parseCSVLine ln = [ln])
   \<and> parseCSVLine (CHR 0x22 # ''Martinez, Carlos'' @ CHR 0x22 # '',carlos@company.com'')
       = [''Martinez, Carlos'', ''carlos@company.com'']"
proof -
  note s = parseCSVLine_split[of ln]
  have e: "parseCSVLine (CHR 0x22 # ''Martinez, Carlos'' @ CHR 0x22 # '',carlos@company.com'')
       = [''Martinez, Carlos'', ''carlos@company.com'']"
    by (simp add: parseCSVLine_def)
  have n: "length (parseCSVLine ln) = Suc (length (delimiters ln))"
    by (simp add: s splitOutsideQuotes_def length_pieces)
  then have m: "parseCSVLine ln \<noteq> []"
    by auto
  have w: "parseCSVLine ln = [stripQuotes ln]" if "delimiters ln = []"
    by (simp add: s splitOutsideQuotes_def that)
  have v: "parseCSVLine ln = [ln]" if "delimiters ln = [] \<and> CHR 0x22 \<notin> set ln"
  proof -
    from that have "stripQuotes ln = ln"
      by (auto simp: stripQuotes_def intro: filter_True)
    with w that show ?thesis by simp
  qed
  from s n m w v e show ?thesis
    by blast
qed

theorem C8_parseCSVLine_witness:
  "delimiters ''Bob Wilson'' = [] \<and> CHR 0x22 \<notin> set ''Bob Wilson''
   \<and> parseCSVLine ''Bob Wilson'' = [stripQuotes ''Bob Wilson'']
   \<and> parseCSVLine ''Bob Wilson'' = [''Bob Wilson'']
   \<and> length (parseCSVLine ''Bob Wilson'') = 1"
proof -
  have d: "delimiters ''Bob Wilson'' = []"
    by (simp add: delimiters_def delimitersFrom_Cons) (simp add: delimitersFrom_def)
  have q: "CHR 0x22 \<notin> set ''Bob Wilson''"
    by simp
  note a = C8_parseCSVLine[of "''Bob Wilson''"]
  from a d have 1: "parseCSVLine ''Bob Wilson'' = [stripQuotes ''Bob Wilson'']"
    by blast
  from a d q have 2: "parseCSVLine ''Bob Wilson'' = [''Bob Wilson'']"
    by blast
  from 2 have 3: "length (parseCSVLine ''Bob Wilson'') = 1"
    by simp
  from d q 1 2 3 show ?thesis
    by blast
qed

section \<open>The email pattern\<close>

text \<open>
  \<open>emailRegex_test\<close> holds exactly for the strings that the pattern matches: a run
  of one or more characters of the class, an \<open>@\<close>, a second run, a dot, a third run.
\<close>

lemma emailRegex_test_matches:
  assumes "a \<noteq> []" "b \<noteq> []" "c \<noteq> []"
    and "list_all nonSpaceAt a" "list_all nonSpaceAt b" "list_all nonSpaceAt c"
  shows "emailRegex_test (a @ CHR ''@'' # b @ CHR ''.'' # c)"
proof -
  from assms(4) have na: "\<And>x. x \<in> set a \<Longrightarrow> x \<noteq> CHR ''@''"
    by (auto simp: list_all_iff nonSpaceAt_def)
  have t: "takeWhile (\<lambda>c. c \<noteq> CHR ''@'') (a @ CHR ''@'' # b @ CHR ''.'' # c) = a"
    using na by (simp add: takeWhile_append2)
  have d: "dropWhile (\<lambda>c. c \<noteq> CHR ''@'') (a @ CHR ''@'' # b @ CHR ''.'' # c) = CHR ''@'' # b @ CHR ''.'' # c"
    using na by (simp add: dropWhile_append2)
  have dot: "nonSpaceAt (CHR ''.'')"
    by (simp add: nonSpaceAt_def isWhiteSpace_def)
  from assms(2,3) have m: "CHR ''.'' \<in> set (butlast (tl (b @ CHR ''.'' # c)))"
    by (cases b) (auto simp: butlast_append)
  show ?thesis
    unfolding emailRegex_test_def Let_def t d
    using assms m dot by simp
qed

lemma emailRegex_test_split:
  assumes "emailRegex_test s"
  shows "\<exists>a b c. s = a @ CHR ''@'' # b @ CHR ''.'' # c \<and> a \<noteq> [] \<and> b \<noteq> [] \<and> c \<noteq> []
           \<and> list_all nonSpaceAt a \<and> list_all nonSpaceAt b \<and> list_all nonSpaceAt c"
proof -
  let ?l = "takeWhile (\<lambda>c. c \<noteq> CHR ''@'') s"
  let ?r = "dropWhile (\<lambda>c. c \<noteq> CHR ''@'') s"
  from assms have l: "?l \<noteq> []" "list_all nonSpaceAt ?l" and r: "?r \<noteq> []"
    and d: "list_all nonSpaceAt (tl ?r)" and m: "CHR ''.'' \<in> set (butlast (tl (tl ?r)))"
    by (simp_all add: emailRegex_test_def Let_def)
  from r have h: "hd ?r = CHR ''@''"
    using hd_dropWhile[of "\<lambda>c. c \<noteq> CHR ''@''" s] by simp
  with r have r1: "?r = CHR ''@'' # tl ?r"
    by (cases ?r) simp_all
  from m obtain x d1 where d1: "tl ?r = x # d1" and m1: "CHR ''.'' \<in> set (butlast d1)"
    by (cases "tl ?r") auto
  from m1 have "d1 \<noteq> []" by auto
  then have d2: "d1 = butlast d1 @ [last d1]" by simp
  from m1 obtain p q where pq: "butlast d1 = p @ CHR ''.'' # q"
    by (auto dest: split_list)
  have s: "s = ?l @ CHR ''@'' # (x # p) @ CHR ''.'' # (q @ [last d1])"
  proof -
    have "s = ?l @ ?r" by simp
    also have "?r = CHR ''@'' # x # d1" using r1 d1 by simp
    also have "d1 = p @ CHR ''.'' # q @ [last d1]" using d2 pq by (metis append.assoc append_Cons)
    finally show ?thesis by simp
  qed
  from d d1 d2 pq have "list_all nonSpaceAt (x # p @ CHR ''.'' # q @ [last d1])"
    by (metis append.assoc append_Cons)
  then have n: "list_all nonSpaceAt (x # p)" "list_all nonSpaceAt (q @ [last d1])"
    by simp_all
  from s l n show ?thesis
    by blast
qed

section \<open>The age field\<close>

text \<open>
  \<open>passesNameEmail\<close> says that the checks before the age pass: two fields at least, a
  name and an email that are not blank, and an email of the right shape. \<open>ageBlank\<close>
  says that the third field is missing or blank.
\<close>

definition passesNameEmail :: "jsstring list \<Rightarrow> bool" where
  "passesNameEmail flds =
     (2 \<le> length flds \<and> trim (flds ! 0) \<noteq> [] \<and> trim (flds ! 1) \<noteq> []
      \<and> emailRegex_test (trim (flds ! 1)))"

definition ageBlank :: "jsstring list \<Rightarrow> bool" where
  "ageBlank flds = (length flds < 3 \<or> trim (flds ! 2) = [])"

definition noErrors :: ErrorCategories where
  "noErrors = \<lparr>missingFields = 0, invalidEmail = 0, invalidAge = 0, malformedLine = 0, other = 0\<rparr>"

text \<open>
  The trimmed age, read from the left: an optional sign, then the decimal digits it
  begins with, then whatever follows. \<open>hexPrefix\<close> says that \<open>0x\<close> or \<open>0X\<close> stands
  right after the sign.
\<close>

definition unsignedPart :: "jsstring \<Rightarrow> jsstring" where
  "unsignedPart t = (if t \<noteq> [] \<and> (hd t = CHR ''+'' \<or> hd t = CHR ''-'') then tl t else t)"

definition leadingDigits :: "jsstring \<Rightarrow> jsstring" where
  "leadingDigits t = takeWhile (isRadixDigit 10) (unsignedPart t)"

definition trailingPart :: "jsstring \<Rightarrow> jsstring" where
  "trailingPart t = dropWhile (isRadixDigit 10) (unsignedPart t)"

definition leadingNumber :: "jsstring \<Rightarrow> int" where
  "leadingNumber t =
     (if t \<noteq> [] \<and> hd t = CHR ''-'' then - 1 else 1) * int (digitsValue 10 (leadingDigits t))"

definition hexPrefix :: "jsstring \<Rightarrow> bool" where
  "hexPrefix t = (take 2 (unsignedPart t) = ''0x'' \<or> take 2 (unsignedPart t) = ''0X'')"

lemmas validator_defs =
  validateFields_def parseCSVLine_def field_at_def truthy_def trim_def isWhiteSpace_def
  emailRegex_test_def nonSpaceAt_def toLowerCase_def toLowerCase_char_def
  parseInt_def isRadixDigit_def digitValue_def digitsValue_def

lemma trim_Nil [simp]: "trim [] = []"
  by (simp add: trim_def)

lemma validateFields_age:
  assumes "passesNameEmail flds"
  shows "validateFields ec fid flds =
     (let r = \<lparr>name = trim (flds ! 0), email = toLowerCase (trim (flds ! 1)), age = None,
               department = (if truthy (field_at flds 3) then Some (trim (flds ! 3)) else None),
               uploadedFileId = fid\<rparr>
      in if ageBlank flds then Inr r
         else (case parseInt (trim (flds ! 2)) of
                 None \<Rightarrow> Inl (InvalidAgeFormat (flds ! 2), ec\<lparr>invalidAge := invalidAge ec + 1\<rparr>)
               | Some n \<Rightarrow>
                   if n < 0 \<or> n > 150
                   then Inl (InvalidAgeValue n, ec\<lparr>invalidAge := invalidAge ec + 1\<rparr>)
                   else Inr (r\<lparr>age := Some n\<rparr>)))"
proof -
  from assms have l: "\<not> length flds < 2" and n: "flds ! 0 \<noteq> []" "trim (flds ! 0) \<noteq> []"
    and e: "flds ! 1 \<noteq> []" "trim (flds ! 1) \<noteq> []" "emailRegex_test (trim (flds ! 1))"
    by (auto simp: passesNameEmail_def)
  have a: "(truthy (field_at flds 2) \<and> trim (the (field_at flds 2)) \<noteq> []) = (\<not> ageBlank flds)"
    by (auto simp: truthy_def field_at_def ageBlank_def)
  have b: "\<not> ageBlank flds \<Longrightarrow> the (field_at flds 2) = flds ! 2"
    by (auto simp: field_at_def ageBlank_def)
  have d: "truthy (field_at flds 3) \<Longrightarrow> the (field_at flds 3) = flds ! 3"
    by (auto simp: field_at_def truthy_def split: if_splits)
  show ?thesis
    unfolding validateFields_def Let_def
    using l n e by (simp add: a b d split: option.splits)
qed

lemma validateFields_age_cases:
  assumes "passesNameEmail flds"
  shows "(ageBlank flds \<longrightarrow> (\<exists>r. validateFields ec fid flds = Inr r \<and> age r = None))
   \<and> (\<not> ageBlank flds \<and> parseInt (trim (flds ! 2)) = None \<longrightarrow>
        validateFields ec fid flds
          = Inl (InvalidAgeFormat (flds ! 2), ec\<lparr>invalidAge := invalidAge ec + 1\<rparr>))
   \<and> (\<not> ageBlank flds \<and> parseInt (trim (flds ! 2)) = Some n \<and> (n < 0 \<or> 150 < n) \<longrightarrow>
        validateFields ec fid flds
          = Inl (InvalidAgeValue n, ec\<lparr>invalidAge := invalidAge ec + 1\<rparr>))
   \<and> (\<not> ageBlank flds \<and> parseInt (trim (flds ! 2)) = Some n \<and> 0 \<le> n \<and> n \<le> 150 \<longrightarrow>
        (\<exists>r. validateFields ec fid flds = Inr r \<and> age r = Some n))"
  using validateFields_age[OF assms, of ec fid] by auto

lemma parseInt_leadingNumber:
  assumes "leadingDigits t \<noteq> []" and "\<not> hexPrefix t"
  shows "parseInt t = Some (leadingNumber t)"
proof -
  from assms(1) have u: "unsignedPart t \<noteq> []" "isRadixDigit 10 (hd (unsignedPart t))"
    by (auto simp: leadingDigits_def takeWhile_eq_Nil_iff intro: list.exhaust_sel)
  have w: "isRadixDigit 10 c \<Longrightarrow> \<not> isWhiteSpace c" for c
    by (auto simp: isRadixDigit_def digitValue_def isWhiteSpace_def)
  from u have t: "t \<noteq> []" "\<not> isWhiteSpace (hd t)"
    by (auto simp: unsignedPart_def isWhiteSpace_def dest: w split: if_splits)
  then have d: "dropWhile isWhiteSpace t = t"
    by (cases t) auto
  show ?thesis
    using assms unfolding parseInt_def d Let_def
    by (simp add: leadingNumber_def leadingDigits_def hexPrefix_def unsignedPart_def)
qed

text \<open>
  C9. On a line that passes the checks of name and email: a missing or blank age gives
  a record with no age; an age that is there and not blank is read by \<open>parseInt\<close>, and
  the line counts as \<open>invalidAge\<close> when that gives no number or a number below 0 or above
  150, and gives a record with that age otherwise. So 150 is valid, 151 and -1 are
  \<open>invalidAge\<close>, the empty age is valid with no age, and \<open>abc\<close> is \<open>invalidAge\<close>.
\<close>

theorem C9_age_field:
  assumes "passesNameEmail flds"
  shows "(ageBlank flds \<longrightarrow> (\<exists>r. validateFields ec fid flds = Inr r \<and> age r = None))
   \<and> (\<not> ageBlank flds \<and> parseInt (trim (flds ! 2)) = None \<longrightarrow>
        validateFields ec fid flds
          = Inl (InvalidAgeFormat (flds ! 2), ec\<lparr>invalidAge := invalidAge ec + 1\<rparr>))
   \<and> (\<not> ageBlank flds \<and> parseInt (trim (flds ! 2)) = Some n \<and> (n < 0 \<or> 150 < n) \<longrightarrow>
        validateFields ec fid flds
          = Inl (InvalidAgeValue n, ec\<lparr>invalidAge := invalidAge ec + 1\<rparr>))
   \<and> (\<not> ageBlank flds \<and> parseInt (trim (flds ! 2)) = Some n \<and> 0 \<le> n \<and> n \<le> 150 \<longrightarrow>
        (\<exists>r. validateFields ec fid flds = Inr r \<and> age r = Some n))
   \<and> (\<exists>r. validateFields ec fid (parseCSVLine ''Ann,ann@example.org,150'') = Inr r \<and> age r = Some 150)
   \<and> validateFields ec fid (parseCSVLine ''Ann,ann@example.org,151'')
        = Inl (InvalidAgeValue 151, ec\<lparr>invalidAge := invalidAge ec + 1\<rparr>)
   \<and> validateFields ec fid (parseCSVLine ''Ann,ann@example.org,-1'')
        = Inl (InvalidAgeValue (- 1), ec\<lparr>invalidAge := invalidAge ec + 1\<rparr>)
   \<and> (\<exists>r. validateFields ec fid (parseCSVLine ''Ann,ann@example.org,'') = Inr r \<and> age r = None)
   \<and> validateFields ec fid (parseCSVLine ''Ann,ann@example.org,abc'')
        = Inl (InvalidAgeFormat ''abc'', ec\<lparr>invalidAge := invalidAge ec + 1\<rparr>)"
proof -
  note c = validateFields_age_cases[OF assms, of ec fid n]
  have 1: "\<exists>r. validateFields ec fid (parseCSVLine ''Ann,ann@example.org,150'') = Inr r \<and> age r = Some 150"
    by (simp add: validator_defs)
  have 2: "validateFields ec fid (parseCSVLine ''Ann,ann@example.org,151'')
        = Inl (InvalidAgeValue 151, ec\<lparr>invalidAge := invalidAge ec + 1\<rparr>)"
    by (simp add: validator_defs)
  have 3: "validateFields ec fid (parseCSVLine ''Ann,ann@example.org,-1'')
        = Inl (InvalidAgeValue (- 1), ec\<lparr>invalidAge := invalidAge ec + 1\<rparr>)"
    by (simp add: validator_defs)
  have 4: "\<exists>r. validateFields ec fid (parseCSVLine ''Ann,ann@example.org,'') = Inr r \<and> age r = None"
    by (simp add: validator_defs)
  have 5: "validateFields ec fid (parseCSVLine ''Ann,ann@example.org,abc'')
        = Inl (InvalidAgeFormat ''abc'', ec\<lparr>invalidAge := invalidAge ec + 1\<rparr>)"
    by (simp add: validator_defs)
  from c 1 2 3 4 5 show ?thesis
    by blast
qed

theorem C9_age_field_witness:
  "passesNameEmail [''Ann'', ''ann@example.org'', ''42'']
   \<and> \<not> ageBlank [''Ann'', ''ann@example.org'', ''42'']
   \<and> parseInt (trim ''42'') = Some 42
   \<and> (\<exists>r. validateFields noErrors ''file-1'' [''Ann'', ''ann@example.org'', ''42''] = Inr r \<and> age r = Some 42)
   \<and> passesNameEmail [''Ann'', ''ann@example.org'']
   \<and> ageBlank [''Ann'', ''ann@example.org'']
   \<and> (\<exists>r. validateFields noErrors ''file-1'' [''Ann'', ''ann@example.org''] = Inr r \<and> age r = None)
   \<and> passesNameEmail [''Ann'', ''ann@example.org'', ''twenty-five'']
   \<and> \<not> ageBlank [''Ann'', ''ann@example.org'', ''twenty-five'']
   \<and> parseInt (trim ''twenty-five'') = None
   \<and> validateFields noErrors ''file-1'' [''Ann'', ''ann@example.org'', ''twenty-five'']
        = Inl (InvalidAgeFormat ''twenty-five'', noErrors\<lparr>invalidAge := invalidAge noErrors + 1\<rparr>)
   \<and> passesNameEmail [''Ann'', ''ann@example.org'', ''999'']
   \<and> \<not> ageBlank [''Ann'', ''ann@example.org'', ''999'']
   \<and> parseInt (trim ''999'') = Some 999
   \<and> validateFields noErrors ''file-1'' [''Ann'', ''ann@example.org'', ''999'']
        = Inl (InvalidAgeValue 999, noErrors\<lparr>invalidAge := invalidAge noErrors + 1\<rparr>)"
proof -
  have p: "passesNameEmail [''Ann'', ''ann@example.org'', a]"
    "passesNameEmail [''Ann'', ''ann@example.org'']" for a
    by (simp_all add: passesNameEmail_def trim_def isWhiteSpace_def emailRegex_test_def nonSpaceAt_def)
  have b: "\<not> ageBlank [''Ann'', ''ann@example.org'', ''42'']" "ageBlank [''Ann'', ''ann@example.org'']"
    "\<not> ageBlank [''Ann'', ''ann@example.org'', ''twenty-five'']"
    "\<not> ageBlank [''Ann'', ''ann@example.org'', ''999'']"
    by (simp_all add: ageBlank_def trim_def isWhiteSpace_def)
  have i: "parseInt (trim ''42'') = Some 42" "parseInt (trim ''twenty-five'') = None"
    "parseInt (trim ''999'') = Some 999"
    by (simp_all add: validator_defs)
  from C9_age_field[OF p(1), of "''42''" noErrors "''file-1''" 42] b i
  have 1: "\<exists>r. validateFields noErrors ''file-1'' [''Ann'', ''ann@example.org'', ''42''] = Inr r \<and> age r = Some 42"
    by simp
  from C9_age_field[OF p(2), of noErrors "''file-1''" 0] b
  have 2: "\<exists>r. validateFields noErrors ''file-1'' [''Ann'', ''ann@example.org''] = Inr r \<and> age r = None"
    by blast
  from C9_age_field[OF p(1), of "''twenty-five''" noErrors "''file-1''" 0] b i
  have 3: "validateFields noErrors ''file-1'' [''Ann'', ''ann@example.org'', ''twenty-five'']
        = Inl (InvalidAgeFormat ''twenty-five'', noErrors\<lparr>invalidAge := invalidAge noErrors + 1\<rparr>)"
    by simp
  from C9_age_field[OF p(1), of "''999''" noErrors "''file-1''" 999] b i
  have 4: "validateFields noErrors ''file-1'' [''Ann'', ''ann@example.org'', ''999'']
        = Inl (InvalidAgeValue 999, noErrors\<lparr>invalidAge := invalidAge noErrors + 1\<rparr>)"
    by simp
  from p b i 1 2 3 4 show ?thesis
    by blast
qed

text \<open>
  C10, as stated, fails where the digits are \<open>0\<close> and an \<open>x\<close> follows: \<open>parseInt\<close> then
  reads what follows in base 16. The age \<open>0xFF\<close> begins with the digit 0, of value 0,
  and other characters follow; the line is refused, with the number 255. The age
  \<open>0x1F\<close> is accepted, and the age stored is 31, not 0.
\<close>

theorem C10_counterexample:
  "passesNameEmail [''Ann'', ''ann@example.org'', ''0xFF'']
   \<and> leadingDigits (trim ''0xFF'') = ''0''
   \<and> trailingPart (trim ''0xFF'') = ''xFF''
   \<and> leadingNumber (trim ''0xFF'') = 0
   \<and> validateFields noErrors ''file-1'' [''Ann'', ''ann@example.org'', ''0xFF'']
        = Inl (InvalidAgeValue 255, noErrors\<lparr>invalidAge := 1\<rparr>)
   \<and> passesNameEmail [''Ann'', ''ann@example.org'', ''0x1F'']
   \<and> leadingDigits (trim ''0x1F'') = ''0''
   \<and> trailingPart (trim ''0x1F'') = ''x1F''
   \<and> leadingNumber (trim ''0x1F'') = 0
   \<and> validateFields noErrors ''file-1'' [''Ann'', ''ann@example.org'', ''0x1F'']
        = Inr \<lparr>name = ''Ann'', email = ''ann@example.org'', age = Some 31, department = None,
               uploadedFileId = ''file-1''\<rparr>"
  by (simp add: validator_defs passesNameEmail_def leadingDigits_def trailingPart_def
      leadingNumber_def unsignedPart_def noErrors_def)

text \<open>
  C10, amended. On a line that passes the checks of name and email, an age whose
  trimmed value begins with an optional sign and at least one decimal digit, and has
  no \<open>0x\<close> or \<open>0X\<close> right after the sign, is read as the number of its leading digits,
  whatever follows them: the line is accepted with that age when it lies between 0 and
  150, and counts as \<open>invalidAge\<close> otherwise. So \<open>25abc\<close> is stored as 25 and \<open>12.9\<close>
  as 12.
\<close>

theorem C10_numeric_prefix:
  assumes "passesNameEmail flds" and "2 < length flds"
    and "leadingDigits (trim (flds ! 2)) \<noteq> []"
    and "\<not> hexPrefix (trim (flds ! 2))"
  shows "parseInt (trim (flds ! 2)) = Some (leadingNumber (trim (flds ! 2)))
   \<and> (0 \<le> leadingNumber (trim (flds ! 2)) \<and> leadingNumber (trim (flds ! 2)) \<le> 150 \<longrightarrow>
        (\<exists>r. validateFields ec fid flds = Inr r \<and> age r = Some (leadingNumber (trim (flds ! 2)))))
   \<and> (leadingNumber (trim (flds ! 2)) < 0 \<or> 150 < leadingNumber (trim (flds ! 2)) \<longrightarrow>
        validateFields ec fid flds
          = Inl (InvalidAgeValue (leadingNumber (trim (flds ! 2))), ec\<lparr>invalidAge := invalidAge ec + 1\<rparr>))
   \<and> (\<exists>r. validateFields ec fid (parseCSVLine ''Ann,ann@example.org,25abc'') = Inr r \<and> age r = Some 25)
   \<and> (\<exists>r. validateFields ec fid (parseCSVLine ''Ann,ann@example.org,12.9'') = Inr r \<and> age r = Some 12)"
proof -
  let ?t = "trim (flds ! 2)"
  have p: "parseInt ?t = Some (leadingNumber ?t)"
    using assms(3,4) by (rule parseInt_leadingNumber)
  from assms(3) have "?t \<noteq> []"
    by (auto simp: leadingDigits_def unsignedPart_def)
  with assms(2) have b: "\<not> ageBlank flds"
    by (simp add: ageBlank_def)
  note c = validateFields_age_cases[OF assms(1), of ec fid "leadingNumber ?t"]
  have e1: "\<exists>r. validateFields ec fid (parseCSVLine ''Ann,ann@example.org,25abc'') = Inr r \<and> age r = Some 25"
    by (simp add: validator_defs)
  have e2: "\<exists>r. validateFields ec fid (parseCSVLine ''Ann,ann@example.org,12.9'') = Inr r \<and> age r = Some 12"
    by (simp add: validator_defs)
  from p b c e1 e2 show ?thesis
    by blast
qed

theorem C10_numeric_prefix_witness:
  "passesNameEmail [''Ann'', ''ann@example.org'', '' 25abc'']
   \<and> 2 < length [''Ann'', ''ann@example.org'', '' 25abc'']
   \<and> leadingDigits (trim '' 25abc'') = ''25''
   \<and> trailingPart (trim '' 25abc'') = ''abc''
   \<and> \<not> hexPrefix (trim '' 25abc'')
   \<and> leadingNumber (trim '' 25abc'') = 25
   \<and> parseInt (trim '' 25abc'') = Some 25
   \<and> (\<exists>r. validateFields noErrors ''file-1'' [''Ann'', ''ann@example.org'', '' 25abc''] = Inr r
          \<and> age r = Some 25)
   \<and> passesNameEmail [''Ann'', ''ann@example.org'', ''-7 years'']
   \<and> leadingDigits (trim ''-7 years'') = ''7''
   \<and> \<not> hexPrefix (trim ''-7 years'')
   \<and> leadingNumber (trim ''-7 years'') = - 7
   \<and> validateFields noErrors ''file-1'' [''Ann'', ''ann@example.org'', ''-7 years'']
        = Inl (InvalidAgeValue (- 7), noErrors\<lparr>invalidAge := invalidAge noErrors + 1\<rparr>)"
proof -
  let ?f = "[''Ann'', ''ann@example.org'', '' 25abc'']"
  let ?g = "[''Ann'', ''ann@example.org'', ''-7 years'']"
  have p: "passesNameEmail ?f" "passesNameEmail ?g"
    by (simp_all add: passesNameEmail_def trim_def isWhiteSpace_def emailRegex_test_def nonSpaceAt_def)
  have l: "2 < length ?f" "2 < length ?g"
    by simp_all
  have d: "leadingDigits (trim '' 25abc'') = ''25''" "trailingPart (trim '' 25abc'') = ''abc''"
    "leadingDigits (trim ''-7 years'') = ''7''"
    by (simp_all add: leadingDigits_def trailingPart_def unsignedPart_def trim_def isWhiteSpace_def
        isRadixDigit_def digitValue_def)
  have h: "\<not> hexPrefix (trim '' 25abc'')" "\<not> hexPrefix (trim ''-7 years'')"
    by (simp_all add: hexPrefix_def unsignedPart_def trim_def isWhiteSpace_def)
  have n: "leadingNumber (trim '' 25abc'') = 25" "leadingNumber (trim ''-7 years'') = - 7"
    by (simp_all add: leadingNumber_def leadingDigits_def unsignedPart_def trim_def isWhiteSpace_def
        isRadixDigit_def digitValue_def digitsValue_def)
  have nd: "leadingDigits (trim (?f ! 2)) \<noteq> []" "leadingDigits (trim (?g ! 2)) \<noteq> []"
    using d by simp_all
  have nh: "\<not> hexPrefix (trim (?f ! 2))" "\<not> hexPrefix (trim (?g ! 2))"
    using h by simp_all
  from C10_numeric_prefix[OF p(1) l(1) nd(1) nh(1), of noErrors "''file-1''"] n
  have 1: "parseInt (trim '' 25abc'') = Some 25"
    and 2: "\<exists>r. validateFields noErrors ''file-1'' ?f = Inr r \<and> age r = Some 25"
    by simp_all
  from C10_numeric_prefix[OF p(2) l(2) nd(2) nh(2), of noErrors "''file-1''"] n
  have 3: "validateFields noErrors ''file-1'' ?g
        = Inl (InvalidAgeValue (- 7), noErrors\<lparr>invalidAge := invalidAge noErrors + 1\<rparr>)"
    by simp
  from p l d h n 1 2 3 show ?thesis
    by blast
qed

section \<open>Failures of a line and of a flush\<close>

lemma processLine_counted:
  assumes "\<not> isFirstLine st" and "trim ln \<noteq> []" and "trim ln \<noteq> '',,,''"
  shows "processLine env fid st ln =
     (case tryBlock env fid (st\<lparr>totalLines := totalLines st + 1\<rparr>) (trim ln) of
        Inr st2 \<Rightarrow> st2
      | Inl (e, st2) \<Rightarrow> catchBlock st2 (trim ln) e)"
  using assms by (simp add: processLine_def Let_def)

lemma tryBlock_failedLines:
  "tryBlock env fid st t = Inl (e, st2) \<Longrightarrow> failedLines st2 = failedLines st"
  by (auto simp: tryBlock_def Let_def split: sum.splits option.splits prod.splits if_splits)

lemma catchBlock_failedLines: "failedLines (catchBlock st t e) = failedLines st + 1"
  by (simp add: catchBlock_def Let_def)

lemma processFileContent_throws:
  "(processFileContent env calls fileStream fid = (Inl m, c)) =
     (let st = foldl (processLine env fid) (initialLocals calls) fileStream
      in batch st \<noteq> [] \<and> insertMany_outcome env (insertCalls st) (batch st) = Some m
         \<and> c = Suc (insertCalls st))"
  by (auto simp: processFileContent_def Let_def split: option.splits)

lemma processJob_pipeline_throws:
  assumes "save_outcome env (saveCalls w) = None"
    and "downloadFromS3_outcome env (fileName job) = Inr fileContent"
    and "processFileContent env (insertManyCalls w) fileContent (fileId job) = (Inl m, c)"
  shows "\<exists>r w1. processJob env idx job w = (r, job\<lparr>status := Failed, error := Some m\<rparr>, w1)
           \<and> (r = save_outcome env (Suc (saveCalls w)))
           \<and> (save_outcome env (Suc (saveCalls w)) = None \<longrightarrow>
                jobs w1 = (jobs w)[idx := job\<lparr>status := Failed, error := Some m\<rparr>])"
  using assms
  by (auto simp: processJob_def processJob_try_def save_def Let_def split: option.splits)


definition validLine :: jsstring where
  "validLine = ''a,b@c.d''"

definition rejectFirstEnv :: env where
  "rejectFirstEnv =
     \<lparr>insertMany_outcome = (\<lambda>k docs. if k = 0 then Some ''write timeout'' else None),
      downloadFromS3_outcome = (\<lambda>f. Inr (''name,email'' # replicate 100 validLine)),
      save_outcome = (\<lambda>k. None)\<rparr>"

definition rejectAllEnv :: env where
  "rejectAllEnv =
     \<lparr>insertMany_outcome = (\<lambda>k docs. Some ''connection lost''),
      downloadFromS3_outcome = (\<lambda>f. Inr sampleStream),
      save_outcome = (\<lambda>k. None)\<rparr>"

definition sampleJob :: Job where
  "sampleJob = \<lparr>jobId = ''job-1'', fileId = ''file-1'', fileName = ''upload-1.csv'',
                 status = Pending, result = None, error = None\<rparr>"

definition sampleWorld :: world where
  "sampleWorld = \<lparr>jobs = [sampleJob], isProcessing = False, saveCalls = 0, insertManyCalls = 0\<rparr>"

definition fullBatchStream :: "jsstring list" where
  "fullBatchStream = ''name,email'' # replicate 100 validLine"

definition swallowedResult :: Result where
  "swallowedResult =
     \<lparr>totalLines = 100, successfulInserts = 100, failedLines = 1,
      errorCategories = \<lparr>missingFields = 0, invalidEmail = 0, invalidAge = 0,
                         malformedLine = 0, other = 1\<rparr>,
      errors = [\<lparr>line = 101, errorMessage = InsertRejected ''write timeout'',
                 data = ''a,b@c.d''\<rparr>]\<rparr>"

text \<open>
  Whatever the \<open>try\<close> block of a counted line throws, the \<open>catch\<close> block takes it
  and the line counts as failed; nothing leaves the loop. So a failed check of the
  validator never leaves \<open>processFileContent\<close>.
\<close>

lemma processLine_captures:
  assumes "\<not> isFirstLine st" and "trim ln \<noteq> []" and "trim ln \<noteq> '',,,''"
    and "tryBlock env fid (st\<lparr>totalLines := totalLines st + 1\<rparr>) (trim ln) = Inl (e, st2)"
  shows "processLine env fid st ln = catchBlock st2 (trim ln) e"
    and "failedLines (processLine env fid st ln) = failedLines st + 1"
proof -
  show p: "processLine env fid st ln = catchBlock st2 (trim ln) e"
    using assms by (simp add: processLine_counted)
  from assms(4) tryBlock_failedLines[of env fid "st\<lparr>totalLines := totalLines st + 1\<rparr>" "trim ln" e st2]
  show "failedLines (processLine env fid st ln) = failedLines st + 1"
    by (simp add: p catchBlock_failedLines)
qed

text \<open>
  C2 fails on the code at a flush in mid-stream. The \<open>insertMany\<close> of a full batch is
  called inside the \<open>try\<close> block of the line that filled it, so its rejection is taken
  by the \<open>catch\<close> block of that line, while the \<open>insertMany\<close> of the last batch stands
  outside and throws. Here the file has a header and 100 valid lines, and the first
  \<open>insertMany\<close>, at the hundredth line, is rejected. \<open>processFileContent\<close> does not
  throw: the line is counted as failed, the batch is not cleared and goes out again at
  the end of the stream, and the result has 100 inserts and 1 failed line for 100
  lines. The job is stored as completed, not failed. With the same kind of rejection at
  the last flush (the small file, every \<open>insertMany\<close> rejected) \<open>processFileContent\<close>
  throws and the job is stored as failed with the message.
\<close>

theorem C2_flush_rejection_swallowed:
  "processFileContent rejectFirstEnv 0 fullBatchStream ''file-1'' = (Inr swallowedResult, 2)
   \<and> processJob rejectFirstEnv 0 sampleJob sampleWorld
     = (None, sampleJob\<lparr>status := Completed, result := Some swallowedResult\<rparr>,
        \<lparr>jobs = [sampleJob\<lparr>status := Completed, result := Some swallowedResult\<rparr>],
         isProcessing = False, saveCalls = 2, insertManyCalls = 2\<rparr>)
   \<and> processFileContent rejectAllEnv 0 sampleStream ''file-1'' = (Inl ''connection lost'', 1)
   \<and> processJob rejectAllEnv 0 sampleJob sampleWorld
     = (None, sampleJob\<lparr>status := Failed, error := Some ''connection lost''\<rparr>,
        \<lparr>jobs = [sampleJob\<lparr>status := Failed, error := Some ''connection lost''\<rparr>],
         isProcessing = False, saveCalls = 2, insertManyCalls = 1\<rparr>)"
proof -
  have p: "processFileContent rejectFirstEnv 0 fullBatchStream ''file-1'' = (Inr swallowedResult, 2)"
    by code_simp
  have q: "processFileContent rejectAllEnv 0 sampleStream ''file-1'' = (Inl ''connection lost'', 1)"
    by code_simp
  have e: "save_outcome rejectFirstEnv k = None"
    "downloadFromS3_outcome rejectFirstEnv f = Inr fullBatchStream"
    "save_outcome rejectAllEnv k = None"
    "downloadFromS3_outcome rejectAllEnv f = Inr sampleStream" for k f
    by (simp_all add: rejectFirstEnv_def rejectAllEnv_def fullBatchStream_def)
  have j: "processJob rejectFirstEnv 0 sampleJob sampleWorld
     = (None, sampleJob\<lparr>status := Completed, result := Some swallowedResult\<rparr>,
        \<lparr>jobs = [sampleJob\<lparr>status := Completed, result := Some swallowedResult\<rparr>],
         isProcessing = False, saveCalls = 2, insertManyCalls = 2\<rparr>)"
    by (simp add: processJob_def processJob_try_def save_def Let_def e p sampleJob_def sampleWorld_def)
  have k: "processJob rejectAllEnv 0 sampleJob sampleWorld
     = (None, sampleJob\<lparr>status := Failed, error := Some ''connection lost''\<rparr>,
        \<lparr>jobs = [sampleJob\<lparr>status := Failed, error := Some ''connection lost''\<rparr>],
         isProcessing = False, saveCalls = 2, insertManyCalls = 1\<rparr>)"
    by (simp add: processJob_def processJob_try_def save_def Let_def e q sampleJob_def sampleWorld_def)
  from p j q k show ?thesis
    by (simp only: simp_thms)
qed

section \<open>Error categories\<close>

text \<open>
  A check of the validator that fails counts one of the four named categories, the one
  of the first check that fails, and leaves \<open>other\<close> as it is.
\<close>

lemma validateFields_one_category:
  assumes "validateFields ec fid flds = Inl (e, ec1)"
  shows "other ec1 = other ec
    \<and> (if length flds < 2 then e = InsufficientFields \<and> ec1 = ec\<lparr>malformedLine := malformedLine ec + 1\<rparr>
        else if trim (flds ! 0) = [] then e = NameRequired \<and> ec1 = ec\<lparr>missingFields := missingFields ec + 1\<rparr>
        else if trim (flds ! 1) = [] then e = EmailRequired \<and> ec1 = ec\<lparr>missingFields := missingFields ec + 1\<rparr>
        else if \<not> emailRegex_test (trim (flds ! 1))
          then e = InvalidEmailFormat (flds ! 1) \<and> ec1 = ec\<lparr>invalidEmail := invalidEmail ec + 1\<rparr>
        else ec1 = ec\<lparr>invalidAge := invalidAge ec + 1\<rparr>)"
  using assms
  by (auto simp: validateFields_def Let_def split: if_splits option.splits)

text \<open>
  C3 fails on the code at a failure that is no failure of the validator. The \<open>catch\<close>
  block tests the four named counters as they stand since the start of the run, not
  whether this failure counted one of them. Here the second line fails a check
  (\<open>malformedLine\<close> becomes 1), and later the \<open>insertMany\<close> of the first full batch is
  rejected: the line is counted as failed and gets a sample, but no counter moves,
  \<open>other\<close> stays 0, and the five counters add up to 1 for 2 failed lines.
\<close>

theorem C3_other_not_counted:
  "processFileContent rejectFirstEnv 0 (''name,email'' # ''x'' # replicate 100 validLine) ''file-1''
     = (Inr \<lparr>totalLines = 101, successfulInserts = 100, failedLines = 2,
              errorCategories = \<lparr>missingFields = 0, invalidEmail = 0, invalidAge = 0,
                                 malformedLine = 1, other = 0\<rparr>,
              errors = [\<lparr>line = 2, errorMessage = InsufficientFields, data = ''x''\<rparr>,
                        \<lparr>line = 102, errorMessage = InsertRejected ''write timeout'',
                         data = ''a,b@c.d''\<rparr>]\<rparr>, 2)"
  by code_simp

section \<open>The drain and its jobs\<close>

text \<open>
  The loop goes on to the next pending job exactly when \<open>processJob\<close> returns, and
  stops with the flag still set when \<open>processJob\<close> throws; \<open>processJob\<close> throws
  exactly when its \<open>try\<close> block throws and the \<open>save\<close> of its \<open>catch\<close> block is
  rejected.
\<close>

lemma processQueue_loop_continues:
  "findOnePending (jobs w) = Some idx \<Longrightarrow> processJob env idx (jobs w ! idx) w = (None, job1, w1)
     \<Longrightarrow> processQueue_loop env w = processQueue_loop env w1"
  by (subst processQueue_loop.simps) simp

lemma processQueue_loop_aborts:
  "findOnePending (jobs w) = Some idx \<Longrightarrow> processJob env idx (jobs w ! idx) w = (Some m, job1, w1)
     \<Longrightarrow> processQueue_loop env w = (Some m, w1)"
  by (subst processQueue_loop.simps) simp

lemma processJob_throws:
  "(\<exists>job1 w1. processJob env idx job w = (Some m, job1, w1)) =
     (\<exists>m0 job0 w0. processJob_try env idx job w = (Some m0, job0, w0)
        \<and> save_outcome env (saveCalls w0) = Some m)"
  by (auto simp: processJob_def save_def Let_def split: prod.splits option.splits)

text \<open>
  When every \<open>save\<close> is acknowledged, a job that had neither result nor error ends
  completed with a result and no error, or failed with an error and no result.
\<close>

lemma processJob_saves_acknowledged:
  assumes "\<forall>k. save_outcome env k = None" and "result job = None" and "error job = None"
  shows "\<exists>job1 w1. processJob env idx job w = (None, job1, w1)
     \<and> jobs w1 = (jobs w)[idx := job1]
     \<and> ((status job1 = Completed \<and> result job1 \<noteq> None \<and> error job1 = None)
        \<or> (status job1 = Failed \<and> result job1 = None \<and> error job1 \<noteq> None))"
  using assms
  by (auto simp: processJob_def processJob_try_def save_def Let_def
      split: prod.splits option.splits sum.splits)

definition lostSaveEnv :: env where
  "lostSaveEnv =
     \<lparr>insertMany_outcome = (\<lambda>k docs. None),
      downloadFromS3_outcome = (\<lambda>f. if f = ''missing.csv'' then Inl ''NoSuchKey: The specified key does not exist.'' else Inr sampleStream),
      save_outcome = (\<lambda>k. if k = 1 then Some ''connection lost'' else None)\<rparr>"

definition twoJobs :: world where
  "twoJobs =
     \<lparr>jobs = [\<lparr>jobId = ''job-1'', fileId = ''file-1'', fileName = ''missing.csv'',
                status = Pending, result = None, error = None\<rparr>,
              \<lparr>jobId = ''job-2'', fileId = ''file-2'', fileName = ''upload-2.csv'',
                status = Pending, result = None, error = None\<rparr>],
      isProcessing = False, saveCalls = 0, insertManyCalls = 0\<rparr>"

text \<open>
  C4 fails on the code when the \<open>save\<close> of the \<open>catch\<close> block is rejected. Two jobs
  are pending; the file of the first is not in the object store, and the job store
  rejects the second \<open>save\<close>, the one that would record the failure. \<open>processJob\<close>
  throws, the loop of \<open>processQueue\<close> ends with it: the first job is left as
  \<open>processing\<close> with no error message, the second job is never run, and
  \<open>isProcessing\<close> stays set, so that a later call of \<open>processQueue\<close> returns at
  once, also when every collaborator answers well again.
\<close>

theorem C4_drain_aborted:
  "processQueue lostSaveEnv twoJobs
     = (Some ''connection lost'',
        \<lparr>jobs = [\<lparr>jobId = ''job-1'', fileId = ''file-1'', fileName = ''missing.csv'',
                   status = Processing, result = None, error = None\<rparr>,
                 \<lparr>jobId = ''job-2'', fileId = ''file-2'', fileName = ''upload-2.csv'',
                   status = Pending, result = None, error = None\<rparr>],
         isProcessing = True, saveCalls = 2, insertManyCalls = 0\<rparr>)
   \<and> processQueue ackEnv (snd (processQueue lostSaveEnv twoJobs))
     = (None, snd (processQueue lostSaveEnv twoJobs))"
  by code_simp

text \<open>
  C5 fails on the code when the \<open>save\<close> that records the completion is rejected. The
  \<open>try\<close> block has then set the status to completed and assigned the result; the
  \<open>catch\<close> block sets the status to failed and assigns the error, and the result stays.
  The job goes from completed to failed, and is stored as failed with both a result and
  an error.
\<close>

theorem C5_result_and_error:
  "processJob_try lostSaveEnv 0 sampleJob sampleWorld
     = (Some ''connection lost'', sampleJob\<lparr>status := Completed, result := Some sampleResult\<rparr>,
        \<lparr>jobs = [sampleJob\<lparr>status := Processing\<rparr>], isProcessing = False, saveCalls = 2,
         insertManyCalls = 1\<rparr>)
   \<and> processQueue lostSaveEnv sampleWorld
     = (None,
        \<lparr>jobs = [\<lparr>jobId = ''job-1'', fileId = ''file-1'', fileName = ''upload-1.csv'',
                   status = Failed, result = Some sampleResult, error = Some ''connection lost''\<rparr>],
         isProcessing = False, saveCalls = 3, insertManyCalls = 1\<rparr>)"
  by code_simp

end
